theory Spec2Isabelle
  imports Main
begin

section \<open>Data model (types.h)\<close>

text \<open>
  The simulator is written in C. Every \<open>int\<close> of the source is modelled as a mathematical
  integer: the properties below only compare, copy, increment and decrement these values,
  and none of them depends on the 32-bit range. Pointers to the two shared-memory segments
  are modelled by the segments themselves (the engine only runs after both were attached),
  so the null-pointer guards of the source are the branch that is never taken.

  SM1 holds the \<open>k\<close> page tables back to back as one flat array of entries; SM2 holds the
  free-frame list with its ring buffer.
\<close>

record pte_t =
  frame_no :: int
  valid :: int
  last_used :: int

record free_frame_list_t =
  total_frames :: int
  count :: int
  head :: int
  tail :: int
  frames :: "int list"

text \<open>What C leaves undefined: a dereference outside the array, a remainder by zero.\<close>

datatype fault = OutOfBounds | DivByZero

definition MMU_PAGE_FAULT :: int where "MMU_PAGE_FAULT = -1"
definition MMU_INVALID_PAGE :: int where "MMU_INVALID_PAGE = -2"
definition MMU_END_OF_REF :: int where "MMU_END_OF_REF = -9"

text \<open>The C operator \<open>%\<close> truncates towards zero; its right operand must not be zero.\<close>

definition c_rem :: "int \<Rightarrow> int \<Rightarrow> fault + int" where
  "c_rem a b = (if b = 0 then Inl DivByZero else Inr (sgn a * (\<bar>a\<bar> mod \<bar>b\<bar>)))"

text \<open>Reading and writing an array cell through a computed (integer) index.\<close>

definition load :: "'a list \<Rightarrow> int \<Rightarrow> fault + 'a" where
  "load xs i = (if 0 \<le> i \<and> i < int (length xs) then Inr (xs ! nat i) else Inl OutOfBounds)"

definition store :: "'a list \<Rightarrow> int \<Rightarrow> 'a \<Rightarrow> fault + 'a list" where
  "store xs i v = (if 0 \<le> i \<and> i < int (length xs) then Inr (xs[nat i := v]) else Inl OutOfBounds)"

text \<open>Index of the first entry of process \<open>pid\<close>, and of its entry for \<open>page_no\<close>, in SM1.\<close>

definition pt_base_for_pid :: "int \<Rightarrow> int \<Rightarrow> int" where
  "pt_base_for_pid pid m = pid * m"

definition pte_addr :: "int \<Rightarrow> int \<Rightarrow> int \<Rightarrow> int" where
  "pte_addr pid m page_no = pt_base_for_pid pid m + page_no"

section \<open>Page-table operations (memory.c)\<close>

function pt_init_loop :: "int \<Rightarrow> int \<Rightarrow> pte_t list \<Rightarrow> fault + pte_t list" where
  "pt_init_loop i total' base =
     (if i < total' then
        (case store base i \<lparr>frame_no = -1, valid = 0, last_used = 0\<rparr> of
           Inl e \<Rightarrow> Inl e
         | Inr base' \<Rightarrow> pt_init_loop (i + 1) total' base')
      else Inr base)"
  by pat_completeness auto
termination
  by (relation "measure (\<lambda>(i, total', base). nat (total' - i))") auto

definition pt_init_all :: "pte_t list \<Rightarrow> int \<Rightarrow> int \<Rightarrow> fault + (int \<times> pte_t list)" where
  "pt_init_all sm1_base k m =
     (if k \<le> 0 \<or> m \<le> 0 then Inr (-1, sm1_base)
      else (case pt_init_loop 0 (k * m) sm1_base of
              Inl e \<Rightarrow> Inl e
            | Inr base' \<Rightarrow> Inr (0, base')))"

definition pt_set_mapping ::
  "pte_t list \<Rightarrow> int \<Rightarrow> int \<Rightarrow> int \<Rightarrow> int \<Rightarrow> int \<Rightarrow> fault + (int \<times> pte_t list)" where
  "pt_set_mapping sm1_base pid m page_no frame_no' ts =
     (if pid < 0 \<or> m \<le> 0 \<or> page_no < 0 \<or> page_no \<ge> m \<or> frame_no' < 0 then Inr (-1, sm1_base)
      else (case load sm1_base (pte_addr pid m page_no) of
              Inl e \<Rightarrow> Inl e
            | Inr pte \<Rightarrow>
                (case store sm1_base (pte_addr pid m page_no)
                        (pte\<lparr>frame_no := frame_no', valid := 1, last_used := ts\<rparr>) of
                   Inl e \<Rightarrow> Inl e
                 | Inr sm1' \<Rightarrow> Inr (0, sm1'))))"

definition pt_invalidate :: "pte_t list \<Rightarrow> int \<Rightarrow> int \<Rightarrow> int \<Rightarrow> fault + (int \<times> pte_t list)" where
  "pt_invalidate sm1_base pid m page_no =
     (if pid < 0 \<or> m \<le> 0 \<or> page_no < 0 \<or> page_no \<ge> m then Inr (-1, sm1_base)
      else (case load sm1_base (pte_addr pid m page_no) of
              Inl e \<Rightarrow> Inl e
            | Inr pte \<Rightarrow>
                (case store sm1_base (pte_addr pid m page_no) (pte\<lparr>frame_no := -1, valid := 0\<rparr>) of
                   Inl e \<Rightarrow> Inl e
                 | Inr sm1' \<Rightarrow> Inr (0, sm1'))))"

definition pt_touch :: "pte_t list \<Rightarrow> int \<Rightarrow> int \<Rightarrow> int \<Rightarrow> int \<Rightarrow> fault + (int \<times> pte_t list)" where
  "pt_touch sm1_base pid m page_no ts =
     (if pid < 0 \<or> m \<le> 0 \<or> page_no < 0 \<or> page_no \<ge> m then Inr (-1, sm1_base)
      else (case load sm1_base (pte_addr pid m page_no) of
              Inl e \<Rightarrow> Inl e
            | Inr pte \<Rightarrow>
                if valid pte = 0 then Inr (-1, sm1_base)
                else (case store sm1_base (pte_addr pid m page_no) (pte\<lparr>last_used := ts\<rparr>) of
                        Inl e \<Rightarrow> Inl e
                      | Inr sm1' \<Rightarrow> Inr (0, sm1'))))"

definition is_legal_page :: "int \<Rightarrow> int \<Rightarrow> int" where
  "is_legal_page page_no m_req_for_pid = (if page_no \<ge> 0 \<and> page_no < m_req_for_pid then 1 else 0)"

section \<open>Free-frame list (memory.c)\<close>

function ffl_init_loop :: "int \<Rightarrow> int \<Rightarrow> int list \<Rightarrow> fault + int list" where
  "ffl_init_loop i f fr =
     (if i < f then
        (case store fr i i of
           Inl e \<Rightarrow> Inl e
         | Inr fr' \<Rightarrow> ffl_init_loop (i + 1) f fr')
      else Inr fr)"
  by pat_completeness auto
termination
  by (relation "measure (\<lambda>(i, f, fr). nat (f - i))") auto

definition ffl_init :: "free_frame_list_t \<Rightarrow> int \<Rightarrow> fault + (int \<times> free_frame_list_t)" where
  "ffl_init ffl f =
     (if f \<le> 0 then Inr (-1, ffl)
      else (case ffl_init_loop 0 f (frames ffl) of
              Inl e \<Rightarrow> Inl e
            | Inr fr' \<Rightarrow>
                (case c_rem f f of
                   Inl e \<Rightarrow> Inl e
                 | Inr t \<Rightarrow>
                     Inr (0, ffl\<lparr>total_frames := f, count := f, head := 0, tail := t, frames := fr'\<rparr>))))"

definition ffl_alloc :: "free_frame_list_t \<Rightarrow> fault + (int \<times> free_frame_list_t)" where
  "ffl_alloc ffl =
     (if count ffl > total_frames ffl then Inr (-1, ffl)
      else (case load (frames ffl) (head ffl) of
              Inl e \<Rightarrow> Inl e
            | Inr idx \<Rightarrow>
                (case c_rem (head ffl + 1) (total_frames ffl) of
                   Inl e \<Rightarrow> Inl e
                 | Inr h \<Rightarrow> Inr (idx, ffl\<lparr>head := h, count := count ffl - 1\<rparr>))))"

definition ffl_free :: "free_frame_list_t \<Rightarrow> int \<Rightarrow> fault + (int \<times> free_frame_list_t)" where
  "ffl_free ffl frame_idx =
     (if frame_idx < 0 \<or> frame_idx \<ge> total_frames ffl then Inr (-1, ffl)
      else if count ffl \<ge> total_frames ffl then Inr (-1, ffl)
      else (case store (frames ffl) (tail ffl) frame_idx of
              Inl e \<Rightarrow> Inl e
            | Inr fr' \<Rightarrow>
                (case c_rem (tail ffl + 1) (total_frames ffl) of
                   Inl e \<Rightarrow> Inl e
                 | Inr t \<Rightarrow> Inr (0, ffl\<lparr>frames := fr', tail := t, count := count ffl + 1\<rparr>))))"

section \<open>Local LRU victim selection (memory.c)\<close>

text \<open>
  The scan \<open>for (p = 0; p < m; ++p)\<close> with its two locals \<open>victim\<close> and \<open>oldest_ts\<close>;
  \<open>pt\<close> is the index of the process's first entry. The test \<open>if (pt[p].valid)\<close> is C
  truth: any non-zero value.
\<close>

function lru_scan :: "pte_t list \<Rightarrow> int \<Rightarrow> int \<Rightarrow> int \<Rightarrow> int \<Rightarrow> int \<Rightarrow> fault + int" where
  "lru_scan sm1_base pt m p victim oldest_ts =
     (if p < m then
        (case load sm1_base (pt + p) of
           Inl e \<Rightarrow> Inl e
         | Inr pte \<Rightarrow>
             if valid pte \<noteq> 0 then
               (if victim = -1 \<or> last_used pte < oldest_ts
                then lru_scan sm1_base pt m (p + 1) p (last_used pte)
                else lru_scan sm1_base pt m (p + 1) victim oldest_ts)
             else lru_scan sm1_base pt m (p + 1) victim oldest_ts)
      else Inr victim)"
  by pat_completeness auto
termination
  by (relation "measure (\<lambda>(sm1_base, pt, m, p, victim, oldest_ts). nat (m - p))") auto

definition choose_lru_victim_local :: "pte_t list \<Rightarrow> int \<Rightarrow> int \<Rightarrow> fault + int" where
  "choose_lru_victim_local sm1_base pid m =
     (if pid < 0 \<or> m \<le> 0 then Inr (-1)
      else lru_scan sm1_base (pt_base_for_pid pid m) m 0 (-1) 0)"

section \<open>The engine (mmu.c)\<close>

text \<open>
  What the engine owns: the two shared segments and its logical clock \<open>g_ts\<close>.
\<close>

record mmu_state =
  sm1 :: "pte_t list"
  ffl :: free_frame_list_t
  g_ts :: int

text \<open>
  \<open>resolve_access\<close> returns the reply value and the flag written to \<open>*pfh_out\<close>, with the
  state it leaves. The return codes of \<open>pt_set_mapping\<close> and \<open>pt_invalidate\<close> are dropped,
  as in the source.
\<close>

definition resolve_access ::
  "mmu_state \<Rightarrow> int \<Rightarrow> int \<Rightarrow> int \<Rightarrow> int \<Rightarrow> fault + (int \<times> int \<times> mmu_state)" where
  "resolve_access st p_ind page_no m m_req_for_pid =
     (if is_legal_page page_no m_req_for_pid = 0 then Inr (MMU_INVALID_PAGE, 0, st)
      else
        (case load (sm1 st) (pte_addr p_ind m page_no) of
           Inl e \<Rightarrow> Inl e
         | Inr pte \<Rightarrow>
             if valid pte > 0 then
               (case store (sm1 st) (pte_addr p_ind m page_no) (pte\<lparr>last_used := g_ts st + 1\<rparr>) of
                  Inl e \<Rightarrow> Inl e
                | Inr sm1' \<Rightarrow> Inr (frame_no pte, 0, st\<lparr>sm1 := sm1', g_ts := g_ts st + 1\<rparr>))
             else
               (case ffl_alloc (ffl st) of
                  Inl e \<Rightarrow> Inl e
                | Inr (frame, ffl') \<Rightarrow>
                    if frame \<ge> 0 then
                      (case pt_set_mapping (sm1 st) p_ind m page_no frame (g_ts st + 1) of
                         Inl e \<Rightarrow> Inl e
                       | Inr (rc, sm1') \<Rightarrow>
                           Inr (frame, 1, st\<lparr>sm1 := sm1', ffl := ffl', g_ts := g_ts st + 1\<rparr>))
                    else
                      (case choose_lru_victim_local (sm1 st) p_ind m of
                         Inl e \<Rightarrow> Inl e
                       | Inr victim_page \<Rightarrow>
                           if victim_page < 0 then Inr (MMU_PAGE_FAULT, 0, st\<lparr>ffl := ffl'\<rparr>)
                           else
                             (case load (sm1 st) (pte_addr p_ind m victim_page) of
                                Inl e \<Rightarrow> Inl e
                              | Inr vpte \<Rightarrow>
                                  (case pt_invalidate (sm1 st) p_ind m victim_page of
                                     Inl e \<Rightarrow> Inl e
                                   | Inr (rc1, sm1') \<Rightarrow>
                                       (case pt_set_mapping sm1' p_ind m page_no (frame_no vpte)
                                               (g_ts st + 1) of
                                          Inl e \<Rightarrow> Inl e
                                        | Inr (rc2, sm1'') \<Rightarrow>
                                            Inr (frame_no vpte, 1,
                                                 st\<lparr>sm1 := sm1'', ffl := ffl',
                                                    g_ts := g_ts st + 1\<rparr>))))))))"

text \<open>
  The receive loop of \<open>mmu_run\<close>. What the blocking \<open>ipc_recv_msg\<close> returns on the request
  queue is the input: a request with its three payload integers, or a failure. After a
  failure the loop tests \<open>errno == EINTR\<close>, but only after \<open>ipc_recv_msg\<close> has called
  \<open>perror\<close> and the loop has called \<open>sleep(3)\<close>, and both may overwrite \<open>errno\<close>. So a
  failed receive carries the value of \<open>errno\<close> that the test reads, which need not be the
  value \<open>msgrcv\<close> left: an interrupted receive is retried when the test still reads
  \<open>EINTR\<close>, and breaks the loop like any other failure when it does not.

  What the loop sends is the output, in order. The run ends when the loop breaks, when
  undefined behaviour is reached, or with the loop still blocked in \<open>ipc_recv_msg\<close> once
  the given input is used up.
\<close>

text \<open>The value of \<open>EINTR\<close> in the system's \<open>errno.h\<close>; only equality with it is used.\<close>

definition EINTR :: int where "EINTR = 4"

datatype recv = Recv_Failed int | Recv_Msg int int int

datatype sent = Proc_Reply int int | Sched_Notify int int

datatype loop_exit = All_Completed | Recv_Error | Blocked | Undefined fault

definition send_proc_reply :: "int \<Rightarrow> int \<Rightarrow> sent list" where
  "send_proc_reply pid result = [Proc_Reply pid result]"

definition notify_scheduler :: "int \<Rightarrow> int \<Rightarrow> sent list" where
  "notify_scheduler pid pfh_handled = [Sched_Notify pid (if pfh_handled \<noteq> 0 then 1 else 0)]"

fun mmu_loop ::
  "int \<Rightarrow> int \<Rightarrow> mmu_state \<Rightarrow> int \<Rightarrow> recv list \<Rightarrow> loop_exit \<times> sent list \<times> mmu_state \<times> int" where
  "mmu_loop k m st procs_cmpltd [] = (Blocked, [], st, procs_cmpltd)"
| "mmu_loop k m st procs_cmpltd (Recv_Failed errno # rest) =
     (if errno = EINTR then mmu_loop k m st procs_cmpltd rest
      else (Recv_Error, [], st, procs_cmpltd))"
| "mmu_loop k m st procs_cmpltd (Recv_Msg p_ind page_no m_req_for_pid # rest) =
     (if page_no = MMU_END_OF_REF then
        (let out = send_proc_reply p_ind MMU_END_OF_REF @ notify_scheduler p_ind 0 in
         if procs_cmpltd + 1 \<ge> k then (All_Completed, out, st, procs_cmpltd + 1)
         else (case mmu_loop k m st (procs_cmpltd + 1) rest of
                 (ex, out', st', c') \<Rightarrow> (ex, out @ out', st', c')))
      else
        (case resolve_access st p_ind page_no m m_req_for_pid of
           Inl e \<Rightarrow> (Undefined e, [], st, procs_cmpltd)
         | Inr (result, pfh, st1) \<Rightarrow>
             (let out = send_proc_reply p_ind result @
                        (if pfh \<noteq> 0 then notify_scheduler p_ind 1 else []) in
              case mmu_loop k m st1 procs_cmpltd rest of
                (ex, out', st', c') \<Rightarrow> (ex, out @ out', st', c'))))"

definition mmu_run :: "mmu_state \<Rightarrow> int \<Rightarrow> int \<Rightarrow> recv list \<Rightarrow> loop_exit \<times> sent list \<times> mmu_state \<times> int" where
  "mmu_run st k m input = mmu_loop k m st 0 input"

section \<open>Start-up (master.c)\<close>

text \<open>
  \<open>master_run\<close> creates both segments (the system hands them out zero-filled, sized for
  \<open>num_procs * pgs_per_proc\<close> entries and \<open>n_frms\<close> frame slots) and fills them in line,
  without calling \<open>pt_init_all\<close> or \<open>ffl_init\<close>. Its loop over the frame slots is, statement
  for statement, the loop of \<open>ffl_init\<close>.
\<close>

function master_pt_loop :: "int \<Rightarrow> int \<Rightarrow> pte_t list \<Rightarrow> fault + pte_t list" where
  "master_pt_loop i n base =
     (if i < n then
        (case store base i \<lparr>frame_no = -1, valid = -1, last_used = -1\<rparr> of
           Inl e \<Rightarrow> Inl e
         | Inr base' \<Rightarrow> master_pt_loop (i + 1) n base')
      else Inr base)"
  by pat_completeness auto
termination
  by (relation "measure (\<lambda>(i, n, base). nat (n - i))") auto

definition fresh_sm1 :: "int \<Rightarrow> int \<Rightarrow> pte_t list" where
  "fresh_sm1 k m = replicate (nat (k * m)) \<lparr>frame_no = 0, valid = 0, last_used = 0\<rparr>"

definition fresh_sm2 :: "int \<Rightarrow> free_frame_list_t" where
  "fresh_sm2 f = \<lparr>total_frames = 0, count = 0, head = 0, tail = 0, frames = replicate (nat f) 0\<rparr>"

definition master_init :: "int \<Rightarrow> int \<Rightarrow> int \<Rightarrow> fault + mmu_state" where
  "master_init num_procs pgs_per_proc n_frms =
     (case master_pt_loop 0 (num_procs * pgs_per_proc) (fresh_sm1 num_procs pgs_per_proc) of
        Inl e \<Rightarrow> Inl e
      | Inr base' \<Rightarrow>
          (case c_rem n_frms n_frms of
             Inl e \<Rightarrow> Inl e
           | Inr t \<Rightarrow>
               (case ffl_init_loop 0 n_frms (frames (fresh_sm2 n_frms)) of
                  Inl e \<Rightarrow> Inl e
                | Inr fr' \<Rightarrow>
                    Inr \<lparr>sm1 = base',
                         ffl = \<lparr>total_frames = n_frms, count = 0, head = 0, tail = t, frames = fr'\<rparr>,
                         g_ts = 0\<rparr>)))"

text \<open>
  The start-up the library routines give (\<open>pt_init_all\<close> and \<open>ffl_init\<close> on fresh segments),
  as the memory test of the repository does it.
\<close>

definition library_init :: "int \<Rightarrow> int \<Rightarrow> int \<Rightarrow> fault + mmu_state" where
  "library_init k m f =
     (case pt_init_all (fresh_sm1 k m) k m of
        Inl e \<Rightarrow> Inl e
      | Inr (rc1, base') \<Rightarrow>
          (case ffl_init (fresh_sm2 f) f of
             Inl e \<Rightarrow> Inl e
           | Inr (rc2, ffl') \<Rightarrow> Inr \<lparr>sm1 = base', ffl = ffl', g_ts = 0\<rparr>))"

section \<open>The scheduler (sched.c)\<close>

text \<open>
  The scheduler reads registrations from the ready queue and notifications from the
  engine's queue; \<open>kill(pid, SIGCONT)\<close> succeeds for the processes in \<open>alive\<close>. Its trace
  records the resume signals it delivers, the faults it logs and the completions it counts.
  A run stops where the loop ends or where a blocking receive finds its input used up.
  As in the engine, a failed receive carries the value of \<open>errno\<close> that the scheduler's
  test \<open>errno == EINTR\<close> reads; \<open>ipc_recv_msg\<close> has called \<open>perror\<close> before that test.
\<close>

datatype notif = Note_Failed int | Note int int

datatype sched_event = Resumed int | Fault_Handled int | Finished int

datatype wait_exit = Wait_Finished | Wait_Recv_Error | Wait_Blocked

fun await_finish :: "int \<Rightarrow> notif list \<Rightarrow> wait_exit \<times> sched_event list \<times> notif list" where
  "await_finish pid [] = (Wait_Blocked, [], [])"
| "await_finish pid (Note_Failed errno # rest) =
     (if errno = EINTR then await_finish pid rest else (Wait_Recv_Error, [], rest))"
| "await_finish pid (Note from_pid pfh # rest) =
     (let log = (if pfh \<noteq> 0 then [Fault_Handled from_pid] else []) in
      if pfh = 0 then (Wait_Finished, log @ [Finished pid], rest)
      else (case await_finish pid rest of (ex, tr, rest') \<Rightarrow> (ex, log @ tr, rest')))"

datatype ready = Ready_Failed int | Ready int

fun scheduler_loop ::
  "int \<Rightarrow> (int \<Rightarrow> bool) \<Rightarrow> int \<Rightarrow> ready list \<Rightarrow> notif list \<Rightarrow> sched_event list \<times> int" where
  "scheduler_loop num_procs alive finished_count [] notes = ([], finished_count)"
| "scheduler_loop num_procs alive finished_count (r # ready_rest) notes =
     (if finished_count < num_procs then
        (case r of
           Ready_Failed errno \<Rightarrow>
             if errno = EINTR then scheduler_loop num_procs alive finished_count ready_rest notes
             else ([], finished_count)
         | Ready pid \<Rightarrow>
             if \<not> alive pid then scheduler_loop num_procs alive finished_count ready_rest notes
             else
               (case await_finish pid notes of
                  (ex, tr, notes') \<Rightarrow>
                    if ex = Wait_Blocked then (Resumed pid # tr, finished_count)
                    else
                      (case scheduler_loop num_procs alive
                              (if ex = Wait_Finished then finished_count + 1 else finished_count)
                              ready_rest notes' of
                         (tr', c') \<Rightarrow> (Resumed pid # tr @ tr', c'))))
      else ([], finished_count))"

definition scheduler_run ::
  "int \<Rightarrow> (int \<Rightarrow> bool) \<Rightarrow> ready list \<Rightarrow> notif list \<Rightarrow> sched_event list \<times> int" where
  "scheduler_run num_procs alive registrations notes =
     scheduler_loop num_procs alive 0 registrations notes"

section \<open>Notions used to state the properties\<close>





text \<open>End-of-stream requests in an input: how many there are, and who sent them.\<close>

fun is_end_of_ref :: "recv \<Rightarrow> bool" where
  "is_end_of_ref (Recv_Msg p_ind page_no m_req_for_pid) = (page_no = MMU_END_OF_REF)"
| "is_end_of_ref (Recv_Failed errno) = False"

definition end_of_ref_count :: "recv list \<Rightarrow> int" where
  "end_of_ref_count input = int (length (filter is_end_of_ref input))"

fun end_of_ref_sender :: "recv \<Rightarrow> int list" where
  "end_of_ref_sender (Recv_Msg p_ind page_no m_req_for_pid) =
     (if page_no = MMU_END_OF_REF then [p_ind] else [])"
| "end_of_ref_sender (Recv_Failed errno) = []"

definition end_of_ref_senders :: "recv list \<Rightarrow> int set" where
  "end_of_ref_senders input = set (concat (map end_of_ref_sender input))"

text \<open>What leaves the scheduler waiting: a failed receive after which its test reads
  \<open>EINTR\<close>, or a notification whose flag is not zero.\<close>

fun keeps_waiting :: "notif \<Rightarrow> bool" where
  "keeps_waiting (Note_Failed errno) = (errno = EINTR)"
| "keeps_waiting (Note from_pid pfh) = (pfh \<noteq> 0)"

section \<open>The free-frame pool\<close>

text \<open>
  C2. The claim: with \<open>count = 0\<close> the allocation fails without side effects, and over any
  allocate/release sequence the count stays in \<open>[0, f]\<close> and no outstanding frame is handed
  out again. What the code does: \<open>ffl_alloc\<close> tests \<open>count > total_frames\<close>, so on the
  one-frame pool the second allocation, made with \<open>count = 0\<close>, returns frame 0 again (it
  is still outstanding), and leaves \<open>count = -1\<close>.
\<close>

theorem ffl_alloc_on_empty_pool:
  "ffl_init (fresh_sm2 1) 1 =
     Inr (0, \<lparr>total_frames = 1, count = 1, head = 0, tail = 0, frames = [0]\<rparr>)
   \<and> ffl_alloc \<lparr>total_frames = 1, count = 1, head = 0, tail = 0, frames = [0]\<rparr> =
     Inr (0, \<lparr>total_frames = 1, count = 0, head = 0, tail = 0, frames = [0]\<rparr>)
   \<and> ffl_alloc \<lparr>total_frames = 1, count = 0, head = 0, tail = 0, frames = [0]\<rparr> =
     Inr (0, \<lparr>total_frames = 1, count = - 1, head = 0, tail = 0, frames = [0]\<rparr>)"
  by code_simp

text \<open>
  C3. The claim: at simulation start the pool is full, \<open>count = f\<close>. What the code does:
  \<open>master_run\<close> fills the ring with \<open>0..f-1\<close> but writes \<open>count = 0\<close>; the library routine
  \<open>ffl_init\<close>, which it does not call, writes \<open>count = f\<close>. Shown for one process, two
  pages and four frames.
\<close>

theorem master_run_starts_with_count_zero:
  "master_init 1 2 4 =
     Inr \<lparr>sm1 = [\<lparr>frame_no = - 1, valid = - 1, last_used = - 1\<rparr>,
                 \<lparr>frame_no = - 1, valid = - 1, last_used = - 1\<rparr>],
          ffl = \<lparr>total_frames = 4, count = 0, head = 0, tail = 0, frames = [0, 1, 2, 3]\<rparr>,
          g_ts = 0\<rparr>
   \<and> ffl_init (fresh_sm2 4) 4 =
     Inr (0, \<lparr>total_frames = 4, count = 4, head = 0, tail = 0, frames = [0, 1, 2, 3]\<rparr>)"
  by code_simp

section \<open>Resolving one access\<close>

text \<open>
  C1. The claim: in every reachable state the pool count is in \<open>[0, f]\<close>, every frame is
  either once in the pool or owned by exactly one valid entry, and at most \<open>f\<close> pages are
  resident. What the code does with one process, two pages and one frame, started by the
  library routines: the fault on page 0 takes frame 0 and leaves \<open>count = 0\<close>; the fault on
  page 1 is given frame 0 again by \<open>ffl_alloc\<close>, so that \<open>count = -1\<close> and both entries are
  valid and own frame 0, two resident pages on one frame. Started as \<open>master_run\<close> starts
  it, the first fault already leaves \<open>count = -1\<close>.
\<close>

theorem two_faults_share_the_only_frame:
  "library_init 1 2 1 =
     Inr \<lparr>sm1 = [\<lparr>frame_no = - 1, valid = 0, last_used = 0\<rparr>,
                 \<lparr>frame_no = - 1, valid = 0, last_used = 0\<rparr>],
          ffl = \<lparr>total_frames = 1, count = 1, head = 0, tail = 0, frames = [0]\<rparr>,
          g_ts = 0\<rparr>
   \<and> resolve_access
       \<lparr>sm1 = [\<lparr>frame_no = - 1, valid = 0, last_used = 0\<rparr>,
               \<lparr>frame_no = - 1, valid = 0, last_used = 0\<rparr>],
        ffl = \<lparr>total_frames = 1, count = 1, head = 0, tail = 0, frames = [0]\<rparr>,
        g_ts = 0\<rparr> 0 0 2 2 =
     Inr (0, 1,
       \<lparr>sm1 = [\<lparr>frame_no = 0, valid = 1, last_used = 1\<rparr>,
               \<lparr>frame_no = - 1, valid = 0, last_used = 0\<rparr>],
        ffl = \<lparr>total_frames = 1, count = 0, head = 0, tail = 0, frames = [0]\<rparr>,
        g_ts = 1\<rparr>)
   \<and> resolve_access
       \<lparr>sm1 = [\<lparr>frame_no = 0, valid = 1, last_used = 1\<rparr>,
               \<lparr>frame_no = - 1, valid = 0, last_used = 0\<rparr>],
        ffl = \<lparr>total_frames = 1, count = 0, head = 0, tail = 0, frames = [0]\<rparr>,
        g_ts = 1\<rparr> 0 1 2 2 =
     Inr (0, 1,
       \<lparr>sm1 = [\<lparr>frame_no = 0, valid = 1, last_used = 1\<rparr>,
               \<lparr>frame_no = 0, valid = 1, last_used = 2\<rparr>],
        ffl = \<lparr>total_frames = 1, count = - 1, head = 0, tail = 0, frames = [0]\<rparr>,
        g_ts = 2\<rparr>)
   \<and> (case master_init 1 2 1 of Inl e \<Rightarrow> Inl e | Inr st \<Rightarrow> resolve_access st 0 0 2 2) =
     Inr (0, 1,
       \<lparr>sm1 = [\<lparr>frame_no = 0, valid = 1, last_used = 1\<rparr>,
               \<lparr>frame_no = - 1, valid = - 1, last_used = - 1\<rparr>],
        ffl = \<lparr>total_frames = 1, count = - 1, head = 0, tail = 0, frames = [0]\<rparr>,
        g_ts = 1\<rparr>)"
  by code_simp

text \<open>
  C4. The claim: with \<open>k = 1\<close>, \<open>m = 2\<close>, \<open>f = 1\<close> and bound 2, the references 0, 1, 0 give
  three handled faults, each of the last two evicting the other page, and leave page 0
  alone resident on frame 0. What the code does, started by the library routines and
  started as \<open>master_run\<close> starts it: the first two references are handled faults on
  frame 0 and nothing is evicted; the third reference is a hit (a reply and no
  notification); both pages end valid on frame 0.
\<close>

theorem references_0_1_0_evict_nothing:
  "(case library_init 1 2 1 of
      Inl e \<Rightarrow> None
    | Inr st \<Rightarrow> Some (mmu_run st 1 2 [Recv_Msg 0 0 2, Recv_Msg 0 1 2, Recv_Msg 0 0 2])) =
     Some (Blocked,
       [Proc_Reply 0 0, Sched_Notify 0 1, Proc_Reply 0 0, Sched_Notify 0 1, Proc_Reply 0 0],
       \<lparr>sm1 = [\<lparr>frame_no = 0, valid = 1, last_used = 3\<rparr>,
               \<lparr>frame_no = 0, valid = 1, last_used = 2\<rparr>],
        ffl = \<lparr>total_frames = 1, count = - 1, head = 0, tail = 0, frames = [0]\<rparr>,
        g_ts = 3\<rparr>, 0)
   \<and> (case master_init 1 2 1 of
      Inl e \<Rightarrow> None
    | Inr st \<Rightarrow> Some (mmu_run st 1 2 [Recv_Msg 0 0 2, Recv_Msg 0 1 2, Recv_Msg 0 0 2])) =
     Some (Blocked,
       [Proc_Reply 0 0, Sched_Notify 0 1, Proc_Reply 0 0, Sched_Notify 0 1, Proc_Reply 0 0],
       \<lparr>sm1 = [\<lparr>frame_no = 0, valid = 1, last_used = 3\<rparr>,
               \<lparr>frame_no = 0, valid = 1, last_used = 2\<rparr>],
        ffl = \<lparr>total_frames = 1, count = - 2, head = 0, tail = 0, frames = [0]\<rparr>,
        g_ts = 3\<rparr>, 0)"
  by code_simp

text \<open>
  C10. The claim: for a request that passes the legality check, the entry read at index
  \<open>page_no\<close> lies inside that process's table of \<open>m\<close> entries. What the code does with
  tables of two entries and the request (process 0, page 2, bound 3): the page is legal;
  with one process the read is outside SM1; with two processes it is the first entry of
  process 1, the pool gives up frame 0, \<open>pt_set_mapping\<close> refuses the page silently, and
  the reply is frame 0 with the fault reported as handled while no entry maps it.
\<close>

theorem legal_page_read_outside_the_table:
  "is_legal_page 2 3 = 1
   \<and> pte_addr 0 2 2 = pte_addr 1 2 0
   \<and> (case library_init 1 2 1 of Inl e \<Rightarrow> Inl e | Inr st \<Rightarrow> resolve_access st 0 2 2 3) =
       Inl OutOfBounds
   \<and> (case library_init 2 2 1 of Inl e \<Rightarrow> Inl e | Inr st \<Rightarrow> resolve_access st 0 2 2 3) =
       Inr (0, 1,
         \<lparr>sm1 = replicate 4 \<lparr>frame_no = - 1, valid = 0, last_used = 0\<rparr>,
          ffl = \<lparr>total_frames = 1, count = 0, head = 0, tail = 0, frames = [0]\<rparr>,
          g_ts = 1\<rparr>)"
  by code_simp

text \<open>
  C8. A request whose page number is negative, or at or beyond the bound it carries, is
  answered \<open>MMU_INVALID_PAGE\<close> with the fault flag clear, and the engine's state is returned
  as it was: the clock, every page-table entry of every process, and the free-frame list.
\<close>

theorem resolve_access_illegal_page:
  "page_no \<ge> m_req_for_pid \<or> page_no < 0 \<Longrightarrow>
   resolve_access st p_ind page_no m m_req_for_pid = Inr (MMU_INVALID_PAGE, 0, st)"
  by (auto simp: resolve_access_def is_legal_page_def)

theorem resolve_access_illegal_page_witness:
  "((2::int) \<ge> 2 \<or> (2::int) < 0)
   \<and> resolve_access
       \<lparr>sm1 = [\<lparr>frame_no = 0, valid = 1, last_used = 1\<rparr>,
               \<lparr>frame_no = - 1, valid = 0, last_used = 0\<rparr>],
        ffl = \<lparr>total_frames = 1, count = 0, head = 0, tail = 0, frames = [0]\<rparr>,
        g_ts = 1\<rparr> 0 2 2 2 =
     Inr (- 2, 0,
       \<lparr>sm1 = [\<lparr>frame_no = 0, valid = 1, last_used = 1\<rparr>,
               \<lparr>frame_no = - 1, valid = 0, last_used = 0\<rparr>],
        ffl = \<lparr>total_frames = 1, count = 0, head = 0, tail = 0, frames = [0]\<rparr>,
        g_ts = 1\<rparr>)"
proof -
  have h: "(2::int) \<ge> 2 \<or> (2::int) < 0" by simp
  show ?thesis
    using h resolve_access_illegal_page [OF h, of
        "\<lparr>sm1 = [\<lparr>frame_no = 0, valid = 1, last_used = 1\<rparr>,
                 \<lparr>frame_no = - 1, valid = 0, last_used = 0\<rparr>],
          ffl = \<lparr>total_frames = 1, count = 0, head = 0, tail = 0, frames = [0]\<rparr>,
          g_ts = 1\<rparr>" 0 2]
    by (simp add: MMU_INVALID_PAGE_def)
qed

section \<open>Victim selection\<close>










section \<open>The receive loop of the engine\<close>



lemma mmu_loop_blocked_count:
  "mmu_loop k m st c evs = (Blocked, out, st', c') \<Longrightarrow> c' = c + end_of_ref_count evs"
proof (induction k m st c evs arbitrary: out st' c' rule: mmu_loop.induct)
  case (1 k m st c)
  then show ?case by (simp add: end_of_ref_count_def)
next
  case (2 k m st c errno rest)
  then show ?case by (auto simp: end_of_ref_count_def split: if_splits)
next
  case (3 k m st c p_ind page_no bound rest)
  show ?case
  proof (cases "page_no = MMU_END_OF_REF")
    case True
    then show ?thesis using 3(1)[OF True refl] "3.prems"
      by (auto simp: end_of_ref_count_def Let_def split: if_splits prod.splits)
  next
    case False
    then show ?thesis using 3(2)[OF False] "3.prems"
      by (auto simp: end_of_ref_count_def Let_def split: if_splits prod.splits sum.splits)
  qed
qed

lemma mmu_loop_append:
  "mmu_loop k m st c pre = (Blocked, out, st', c') \<Longrightarrow>
   mmu_loop k m st c (pre @ evs) =
     (case mmu_loop k m st' c' evs of (ex, out2, st2, c2) \<Rightarrow> (ex, out @ out2, st2, c2))"
proof (induction k m st c pre arbitrary: out st' c' rule: mmu_loop.induct)
  case (1 k m st c)
  then show ?case by (auto split: prod.splits)
next
  case (2 k m st c errno rest)
  then show ?case by (auto split: if_splits)
next
  case (3 k m st c p_ind page_no bound rest)
  show ?case
  proof (cases "page_no = MMU_END_OF_REF")
    case True
    then show ?thesis using 3(1)[OF True refl] "3.prems"
      by (auto simp: Let_def split: if_splits prod.splits)
  next
    case False
    then show ?thesis using 3(2)[OF False] "3.prems"
      by (auto simp: Let_def split: if_splits prod.splits sum.splits)
  qed
qed

lemma mmu_loop_completed_only_if:
  "fst (mmu_loop k m st c evs) = All_Completed \<Longrightarrow>
   \<exists>pre p_ind bound rest. evs = pre @ Recv_Msg p_ind MMU_END_OF_REF bound # rest \<and>
      fst (mmu_loop k m st c pre) = Blocked \<and> k \<le> c + end_of_ref_count pre + 1"
proof (induction k m st c evs rule: mmu_loop.induct)
  case (1 k m st c)
  then show ?case by simp
next
  case (2 k m st c errno rest)
  then have e: "errno = EINTR" by (auto split: if_splits)
  with 2 obtain pre p_ind bound rest' where
    "rest = pre @ Recv_Msg p_ind MMU_END_OF_REF bound # rest'"
    "fst (mmu_loop k m st c pre) = Blocked" "k \<le> c + end_of_ref_count pre + 1" by auto
  then have "Recv_Failed errno # rest =
        (Recv_Failed errno # pre) @ Recv_Msg p_ind MMU_END_OF_REF bound # rest' \<and>
      fst (mmu_loop k m st c (Recv_Failed errno # pre)) = Blocked \<and>
      k \<le> c + end_of_ref_count (Recv_Failed errno # pre) + 1"
    using e by (simp add: end_of_ref_count_def)
  then show ?case by blast
next
  case (3 k m st c p_ind page_no bound rest)
  show ?case
  proof (cases "page_no = MMU_END_OF_REF")
    case True
    show ?thesis
    proof (cases "c + 1 \<ge> k")
      case True
      have "Recv_Msg p_ind page_no bound # rest = [] @ Recv_Msg p_ind MMU_END_OF_REF bound # rest \<and>
        fst (mmu_loop k m st c []) = Blocked \<and> k \<le> c + end_of_ref_count [] + 1"
        using True \<open>page_no = MMU_END_OF_REF\<close> by (simp add: end_of_ref_count_def)
      then show ?thesis by blast
    next
      case False
      have "fst (mmu_loop k m st (c + 1) rest) = All_Completed"
        using "3.prems" True False by (simp add: Let_def case_prod_beta)
      from 3(1)[OF True refl _ this] False
      obtain pre q b rest' where
        r: "rest = pre @ Recv_Msg q MMU_END_OF_REF b # rest'"
        "fst (mmu_loop k m st (c + 1) pre) = Blocked" "k \<le> c + 1 + end_of_ref_count pre + 1"
        by auto
      let ?pre = "Recv_Msg p_ind page_no bound # pre"
      have "Recv_Msg p_ind page_no bound # rest = ?pre @ Recv_Msg q MMU_END_OF_REF b # rest' \<and>
        fst (mmu_loop k m st c ?pre) = Blocked \<and> k \<le> c + end_of_ref_count ?pre + 1"
        using r True False by (simp add: end_of_ref_count_def Let_def case_prod_beta)
      then show ?thesis by blast
    qed
  next
    case False
    from "3.prems" False obtain result pfh st1 where
      ra: "resolve_access st p_ind page_no m bound = Inr (result, pfh, st1)"
      by (auto split: sum.splits)
    have "fst (mmu_loop k m st1 c rest) = All_Completed"
      using "3.prems" False ra by (simp add: Let_def case_prod_beta)
    from 3(2)[OF False ra refl refl refl this]
    obtain pre q b rest' where
      r: "rest = pre @ Recv_Msg q MMU_END_OF_REF b # rest'"
      "fst (mmu_loop k m st1 c pre) = Blocked" "k \<le> c + end_of_ref_count pre + 1" by auto
    let ?pre = "Recv_Msg p_ind page_no bound # pre"
    have "Recv_Msg p_ind page_no bound # rest = ?pre @ Recv_Msg q MMU_END_OF_REF b # rest' \<and>
      fst (mmu_loop k m st c ?pre) = Blocked \<and> k \<le> c + end_of_ref_count ?pre + 1"
      using r False ra by (simp add: end_of_ref_count_def Let_def case_prod_beta)
    then show ?thesis by blast
  qed
qed

lemma mmu_loop_completed_if:
  assumes "fst (mmu_loop k m st c pre) = Blocked" "k \<le> c + end_of_ref_count pre + 1"
  shows "fst (mmu_loop k m st c (pre @ Recv_Msg p_ind MMU_END_OF_REF bound # rest)) = All_Completed"
proof -
  obtain out st' c' where b: "mmu_loop k m st c pre = (Blocked, out, st', c')"
    using assms(1) by (cases "mmu_loop k m st c pre") auto
  have c': "c' = c + end_of_ref_count pre" using mmu_loop_blocked_count[OF b] .
  show ?thesis using assms(2) c' by (simp add: mmu_loop_append[OF b] Let_def)
qed

lemma mmu_loop_recv_error_only_if:
  "fst (mmu_loop k m st c evs) = Recv_Error \<Longrightarrow>
   \<exists>pre errno rest. evs = pre @ Recv_Failed errno # rest \<and> errno \<noteq> EINTR \<and>
      fst (mmu_loop k m st c pre) = Blocked"
proof (induction k m st c evs rule: mmu_loop.induct)
  case (1 k m st c)
  then show ?case by simp
next
  case (2 k m st c errno rest)
  show ?case
  proof (cases "errno = EINTR")
    case True
    with 2 obtain pre e rest' where "rest = pre @ Recv_Failed e # rest'" "e \<noteq> EINTR"
      "fst (mmu_loop k m st c pre) = Blocked" by auto
    then have "Recv_Failed errno # rest = (Recv_Failed errno # pre) @ Recv_Failed e # rest' \<and>
        e \<noteq> EINTR \<and> fst (mmu_loop k m st c (Recv_Failed errno # pre)) = Blocked"
      using True by simp
    then show ?thesis by blast
  next
    case False
    then have "Recv_Failed errno # rest = [] @ Recv_Failed errno # rest \<and> errno \<noteq> EINTR \<and>
        fst (mmu_loop k m st c []) = Blocked" by simp
    then show ?thesis by blast
  qed
next
  case (3 k m st c p_ind page_no bound rest)
  show ?case
  proof (cases "page_no = MMU_END_OF_REF")
    case True
    then have nk: "\<not> k \<le> c + 1" using "3.prems" by (auto simp: Let_def split: if_splits)
    have "fst (mmu_loop k m st (c + 1) rest) = Recv_Error"
      using "3.prems" True nk by (simp add: Let_def case_prod_beta)
    from 3(1)[OF True refl _ this] nk
    obtain pre e rest' where r: "rest = pre @ Recv_Failed e # rest'" "e \<noteq> EINTR"
      "fst (mmu_loop k m st (c + 1) pre) = Blocked" by auto
    let ?pre = "Recv_Msg p_ind page_no bound # pre"
    have "Recv_Msg p_ind page_no bound # rest = ?pre @ Recv_Failed e # rest' \<and> e \<noteq> EINTR \<and>
      fst (mmu_loop k m st c ?pre) = Blocked"
      using r True nk by (simp add: Let_def case_prod_beta)
    then show ?thesis by blast
  next
    case False
    from "3.prems" False obtain result pfh st1 where
      ra: "resolve_access st p_ind page_no m bound = Inr (result, pfh, st1)"
      by (auto split: sum.splits)
    have "fst (mmu_loop k m st1 c rest) = Recv_Error"
      using "3.prems" False ra by (simp add: Let_def case_prod_beta)
    from 3(2)[OF False ra refl refl refl this]
    obtain pre e rest' where r: "rest = pre @ Recv_Failed e # rest'" "e \<noteq> EINTR"
      "fst (mmu_loop k m st1 c pre) = Blocked" by auto
    let ?pre = "Recv_Msg p_ind page_no bound # pre"
    have "Recv_Msg p_ind page_no bound # rest = ?pre @ Recv_Failed e # rest' \<and> e \<noteq> EINTR \<and>
      fst (mmu_loop k m st c ?pre) = Blocked"
      using r False ra by (simp add: Let_def case_prod_beta)
    then show ?thesis by blast
  qed
qed

lemma mmu_loop_recv_error_if:
  assumes "fst (mmu_loop k m st c pre) = Blocked" "errno \<noteq> EINTR"
  shows "fst (mmu_loop k m st c (pre @ Recv_Failed errno # rest)) = Recv_Error"
proof -
  obtain out st' c' where b: "mmu_loop k m st c pre = (Blocked, out, st', c')"
    using assms(1) by (cases "mmu_loop k m st c pre") auto
  show ?thesis using assms(2) by (simp add: mmu_loop_append[OF b])
qed



text \<open>
  C6, as the code has it. The loop leaves through its completion check exactly on an
  end-of-stream request that brings the number of end-of-stream requests received so far
  to at least \<open>k\<close>; the requests are counted one by one, whichever process sent them, so a
  sentinel repeated by one process counts each time. The loop also leaves on a failed
  receive, exactly when its test, made after \<open>perror\<close> and \<open>sleep(3)\<close>, does not read
  \<open>EINTR\<close> in \<open>errno\<close>; the failed receives before an exit are those where it did. In both
  cases the loop was still running (\<open>Blocked\<close>) on the input before that request or failure.
\<close>

theorem mmu_run_exits:
  "(fst (mmu_run st k m input) = All_Completed \<longleftrightarrow>
     (\<exists>pre p_ind bound rest.
        input = pre @ Recv_Msg p_ind MMU_END_OF_REF bound # rest \<and>
        fst (mmu_run st k m pre) = Blocked \<and> k \<le> end_of_ref_count pre + 1))
   \<and> (fst (mmu_run st k m input) = Recv_Error \<longleftrightarrow>
     (\<exists>pre errno rest.
        input = pre @ Recv_Failed errno # rest \<and> errno \<noteq> EINTR \<and>
        fst (mmu_run st k m pre) = Blocked))"
proof -
  have a: "fst (mmu_loop k m st 0 input) = All_Completed \<longleftrightarrow>
     (\<exists>pre p_ind bound rest.
        input = pre @ Recv_Msg p_ind MMU_END_OF_REF bound # rest \<and>
        fst (mmu_loop k m st 0 pre) = Blocked \<and> k \<le> end_of_ref_count pre + 1)"
    using mmu_loop_completed_only_if[of k m st 0 input] mmu_loop_completed_if[of k m st 0]
    by auto
  have b: "fst (mmu_loop k m st 0 input) = Recv_Error \<longleftrightarrow>
     (\<exists>pre errno rest.
        input = pre @ Recv_Failed errno # rest \<and> errno \<noteq> EINTR \<and>
        fst (mmu_loop k m st 0 pre) = Blocked)"
    using mmu_loop_recv_error_only_if[of k m st 0 input] mmu_loop_recv_error_if[of k m st 0]
    by blast
  show ?thesis unfolding mmu_run_def using a b by simp
qed

theorem mmu_run_exits_witness:
  "fst (mmu_run
       \<lparr>sm1 = [\<lparr>frame_no = - 1, valid = 0, last_used = 0\<rparr>,
               \<lparr>frame_no = - 1, valid = 0, last_used = 0\<rparr>],
        ffl = \<lparr>total_frames = 2, count = 2, head = 0, tail = 0, frames = [0, 1]\<rparr>,
        g_ts = 0\<rparr>
       2 1 [Recv_Msg 0 0 1, Recv_Msg 0 MMU_END_OF_REF (- 1), Recv_Msg 1 0 1,
            Recv_Msg 1 MMU_END_OF_REF (- 1)]) = All_Completed
   \<and> fst (mmu_run
       \<lparr>sm1 = [\<lparr>frame_no = - 1, valid = 0, last_used = 0\<rparr>,
               \<lparr>frame_no = - 1, valid = 0, last_used = 0\<rparr>],
        ffl = \<lparr>total_frames = 2, count = 2, head = 0, tail = 0, frames = [0, 1]\<rparr>,
        g_ts = 0\<rparr>
       2 1 [Recv_Msg 0 0 1, Recv_Msg 0 MMU_END_OF_REF (- 1), Recv_Msg 1 0 1]) = Blocked
   \<and> end_of_ref_count [Recv_Msg 0 0 1, Recv_Msg 0 MMU_END_OF_REF (- 1), Recv_Msg 1 0 1] = 1"
proof -
  let ?s = "\<lparr>sm1 = [\<lparr>frame_no = - 1, valid = 0, last_used = 0\<rparr>,
               \<lparr>frame_no = - 1, valid = 0, last_used = 0\<rparr>],
        ffl = \<lparr>total_frames = 2, count = 2, head = 0, tail = 0, frames = [0, 1]\<rparr>,
        g_ts = 0\<rparr>"
  let ?pre = "[Recv_Msg 0 0 1, Recv_Msg 0 MMU_END_OF_REF (- 1), Recv_Msg 1 0 1]"
  have b: "fst (mmu_run ?s 2 1 ?pre) = Blocked" by code_simp
  have n: "end_of_ref_count ?pre = 1" by code_simp
  have "\<exists>pre p_ind bound rest.
        ?pre @ [Recv_Msg 1 MMU_END_OF_REF (- 1)] = pre @ Recv_Msg p_ind MMU_END_OF_REF bound # rest \<and>
        fst (mmu_run ?s 2 1 pre) = Blocked \<and> 2 \<le> end_of_ref_count pre + 1"
    using b n by (intro exI[of _ ?pre] exI[of _ 1] exI[of _ "- 1"] exI[of _ "[]"]) simp
  then have "fst (mmu_run ?s 2 1 (?pre @ [Recv_Msg 1 MMU_END_OF_REF (- 1)])) = All_Completed"
    using mmu_run_exits [of ?s 2 1 "?pre @ [Recv_Msg 1 MMU_END_OF_REF (- 1)]"] by blast
  then show ?thesis using b n by simp
qed

text \<open>
  C6 as claimed fails: with \<open>k = 2\<close>, two sentinels from process 7 end the loop although
  one process only has sent the sentinel; and a failed receive whose test reads another
  value than \<open>EINTR\<close> (here 22, \<open>EINVAL\<close>) ends it with no sentinel sent.
\<close>

theorem mmu_run_repeated_sentinel_counterexample:
  "fst (mmu_run
       \<lparr>sm1 = [], ffl = \<lparr>total_frames = 1, count = 1, head = 0, tail = 0, frames = [0]\<rparr>, g_ts = 0\<rparr>
       2 2 [Recv_Msg 7 MMU_END_OF_REF (- 1), Recv_Msg 7 MMU_END_OF_REF (- 1)]) = All_Completed
   \<and> card (end_of_ref_senders [Recv_Msg 7 MMU_END_OF_REF (- 1), Recv_Msg 7 MMU_END_OF_REF (- 1)]) = 1
   \<and> fst (mmu_run
       \<lparr>sm1 = [], ffl = \<lparr>total_frames = 1, count = 1, head = 0, tail = 0, frames = [0]\<rparr>, g_ts = 0\<rparr>
       2 2 [Recv_Failed 22]) = Recv_Error
   \<and> card (end_of_ref_senders [Recv_Failed 22]) = 0"
  by (simp add: mmu_run_def end_of_ref_senders_def send_proc_reply_def notify_scheduler_def
      EINTR_def)

section \<open>The scheduler waiting for its running process\<close>

lemma await_finish_only_if:
  "fst (await_finish pid ns) = Wait_Finished \<Longrightarrow>
   \<exists>pre from_pid rest. ns = pre @ Note from_pid 0 # rest \<and> list_all keeps_waiting pre"
proof (induction pid ns rule: await_finish.induct)
  case (1 pid)
  then show ?case by simp
next
  case (2 pid errno rest)
  then have e: "errno = EINTR" by (auto split: if_splits)
  with 2 obtain pre f rest' where "rest = pre @ Note f 0 # rest'" "list_all keeps_waiting pre"
    by auto
  then have "Note_Failed errno # rest = (Note_Failed errno # pre) @ Note f 0 # rest' \<and>
    list_all keeps_waiting (Note_Failed errno # pre)" using e by simp
  then show ?case by blast
next
  case (3 pid from_pid pfh rest)
  show ?case
  proof (cases "pfh = 0")
    case True
    then have "Note from_pid pfh # rest = [] @ Note from_pid 0 # rest \<and> list_all keeps_waiting []"
      by simp
    then show ?thesis by blast
  next
    case False
    then have "fst (await_finish pid rest) = Wait_Finished"
      using "3.prems" by (simp add: Let_def case_prod_beta)
    from 3(1)[OF refl False this] obtain pre f rest' where "rest = pre @ Note f 0 # rest'"
      "list_all keeps_waiting pre" by auto
    then have "Note from_pid pfh # rest = (Note from_pid pfh # pre) @ Note f 0 # rest' \<and>
      list_all keeps_waiting (Note from_pid pfh # pre)"
      using False by simp
    then show ?thesis by blast
  qed
qed

lemma await_finish_if:
  "list_all keeps_waiting pre \<Longrightarrow>
   fst (await_finish pid (pre @ Note from_pid 0 # rest)) = Wait_Finished"
proof (induction pre)
  case Nil
  then show ?case by simp
next
  case (Cons a pre)
  then show ?case by (cases a) (auto simp: Let_def case_prod_beta)
qed

lemma await_abandoned_only_if:
  "fst (await_finish pid ns) = Wait_Recv_Error \<Longrightarrow>
   \<exists>pre errno rest. ns = pre @ Note_Failed errno # rest \<and> errno \<noteq> EINTR \<and>
      list_all keeps_waiting pre"
proof (induction pid ns rule: await_finish.induct)
  case (1 pid)
  then show ?case by simp
next
  case (2 pid errno rest)
  show ?case
  proof (cases "errno = EINTR")
    case True
    with 2 obtain pre e rest' where "rest = pre @ Note_Failed e # rest'" "e \<noteq> EINTR"
      "list_all keeps_waiting pre" by auto
    then have "Note_Failed errno # rest = (Note_Failed errno # pre) @ Note_Failed e # rest' \<and>
      e \<noteq> EINTR \<and> list_all keeps_waiting (Note_Failed errno # pre)" using True by simp
    then show ?thesis by blast
  next
    case False
    then have "Note_Failed errno # rest = [] @ Note_Failed errno # rest \<and>
      errno \<noteq> EINTR \<and> list_all keeps_waiting []" by simp
    then show ?thesis by blast
  qed
next
  case (3 pid from_pid pfh rest)
  have nz: "pfh \<noteq> 0" using "3.prems" by (auto simp: Let_def split: if_splits)
  then have "fst (await_finish pid rest) = Wait_Recv_Error"
    using "3.prems" by (simp add: Let_def case_prod_beta)
  from 3(1)[OF refl nz this] obtain pre e rest' where "rest = pre @ Note_Failed e # rest'"
    "e \<noteq> EINTR" "list_all keeps_waiting pre" by auto
  then have "Note from_pid pfh # rest = (Note from_pid pfh # pre) @ Note_Failed e # rest' \<and>
    e \<noteq> EINTR \<and> list_all keeps_waiting (Note from_pid pfh # pre)"
    using nz by simp
  then show ?case by blast
qed

lemma await_abandoned_if:
  "list_all keeps_waiting pre \<Longrightarrow> errno \<noteq> EINTR \<Longrightarrow>
   fst (await_finish pid (pre @ Note_Failed errno # rest)) = Wait_Recv_Error"
proof (induction pre)
  case Nil
  then show ?case by simp
next
  case (Cons a pre)
  then show ?case by (cases a) (auto simp: Let_def case_prod_beta)
qed

text \<open>
  C7, as the code has it. While a process is running, the scheduler marks it finished
  exactly on the first notification whose fault-handled flag is zero, whatever process
  identifier that notification carries, when everything received before it is a
  notification with a non-zero flag or a failed receive after which the scheduler's test,
  made after \<open>perror\<close>, reads \<open>EINTR\<close> in \<open>errno\<close>. A notification with a non-zero flag
  never finishes the process. A failed receive whose test reads another value abandons
  the wait and leaves the process unfinished, and the wait ends so in no other way.
\<close>

theorem await_finish_first_zero_flag:
  "(fst (await_finish pid ns) = Wait_Finished \<longleftrightarrow>
     (\<exists>pre from_pid rest. ns = pre @ Note from_pid 0 # rest \<and> list_all keeps_waiting pre))
   \<and> (fst (await_finish pid ns) = Wait_Recv_Error \<longleftrightarrow>
     (\<exists>pre errno rest. ns = pre @ Note_Failed errno # rest \<and> errno \<noteq> EINTR \<and>
        list_all keeps_waiting pre))"
proof -
  have a: "fst (await_finish pid ns) = Wait_Finished \<longleftrightarrow>
     (\<exists>pre from_pid rest. ns = pre @ Note from_pid 0 # rest \<and> list_all keeps_waiting pre)"
    using await_finish_only_if[of pid ns] await_finish_if[of _ pid] by blast
  have b: "fst (await_finish pid ns) = Wait_Recv_Error \<longleftrightarrow>
     (\<exists>pre errno rest. ns = pre @ Note_Failed errno # rest \<and> errno \<noteq> EINTR \<and>
        list_all keeps_waiting pre)"
    using await_abandoned_only_if[of pid ns] await_abandoned_if[of _ _ pid] by blast
  show ?thesis using a b by simp
qed

theorem await_finish_first_zero_flag_witness:
  "fst (await_finish 100 [Note 100 1, Note 100 1, Note 100 0, Note 100 1]) = Wait_Finished
   \<and> list_all keeps_waiting [Note 100 1, Note 100 1]"
proof -
  have k: "list_all keeps_waiting [Note 100 1, Note 100 1]" by simp
  then have "\<exists>pre from_pid rest.
      [Note 100 1, Note 100 1, Note 100 0, Note 100 1] = pre @ Note from_pid 0 # rest \<and>
      list_all keeps_waiting pre"
    by (intro exI[of _ "[Note 100 1, Note 100 1]"] exI[of _ 100] exI[of _ "[Note 100 1]"]) simp
  then have "fst (await_finish 100 [Note 100 1, Note 100 1, Note 100 0, Note 100 1]) = Wait_Finished"
    using await_finish_first_zero_flag [of 100 "[Note 100 1, Note 100 1, Note 100 0, Note 100 1]"]
    by blast
  then show ?thesis using k by simp
qed

text \<open>
  C7 as claimed fails: with process 100 running, a notification for process 200 with the
  flag zero makes the scheduler count process 100 as finished.
\<close>

theorem scheduler_finishes_on_foreign_note_counterexample:
  "scheduler_run 1 (\<lambda>pid. True) [Ready 100] [Note 200 0] = ([Resumed 100, Finished 100], 1)
   \<and> fst (await_finish 100 [Note 200 0]) = Wait_Finished
   \<and> (200::int) \<noteq> 100"
  by (simp add: scheduler_run_def)

end
